theory Spec2Isabelle
  imports Complex_Main "HOL-Library.Word"
begin

section \<open>The settlement engine (GoSettlement, main.go)\<close>

text \<open>
  The engine keeps a ledger of accounts, a log of submitted transactions and a bounded
  queue that a single worker drains in batches. Every method of the Go type
  \<open>SettlementEngine\<close> becomes a function that takes the engine and returns the engine it
  leaves behind, together with the error value or result the method returns.

  \<^item> \<open>float64\<close> amounts are values of a type \<open>'a\<close> that only has to provide \<open>+\<close>, \<open>-\<close>,
    \<open><\<close>, \<open>\<le>\<close> and \<open>0\<close>. No law of arithmetic is assumed in the definitions, so a theorem
    stated for every such \<open>'a\<close> holds for whatever these operations do, IEEE rounding,
    infinities and NaN included. Go's \<open>x >= y\<close> is written \<open>y \<le> x\<close>. Theorems that need
    laws of arithmetic say so in their sort constraint.
  \<^item> \<open>int64\<close> (the version counter) is a 64-bit word: \<open>Version++\<close> wraps around.
  \<^item> \<open>time.Time\<close> is the integer \<open>UnixNano\<close> reads from it. A call of \<open>time.Now()\<close> reads
    the environment: methods that call it once or twice take the readings as arguments,
    the batch loop takes a \<open>clock\<close> (reading number \<open>k\<close> is \<open>clk k\<close>) and counts its calls.
  \<^item> A method call is one step. All methods but \<open>SubmitTransaction\<close> hold the mutex for
    their whole body; \<open>SubmitTransaction\<close> holds it for the append to the log and then
    sends without it, and the model takes both together, as in a sequential caller.
    The caller's \<open>*Transaction\<close> and the copy appended to the log are separate values.
  \<^item> The buffered channel \<open>settlementChan\<close> is the list of its queued elements, oldest
    first, with its capacity \<open>chanCap\<close>; \<open>stopChan\<close> is the flag "closed".
  \<^item> The messages built by \<open>fmt.Errorf\<close> and the \<open>ErrorMessage\<close> strings are
    constructors of \<open>error\<close>; the empty \<open>ErrorMessage\<close> is \<open>None\<close>. Output written by
    \<open>fmt.Printf\<close> is not modelled.
\<close>

subsection \<open>Data\<close>

type_synonym time = int

type_synonym clock = "nat \<Rightarrow> time"

text \<open>
  The error values of the source, by the line that builds them: \<open>DuplicateAccount\<close> (68),
  \<open>InvalidTransaction\<close> (86), \<open>QueueFull\<close> (102), \<open>AccountNotFound\<close> (172, 297, 333, 356),
  \<open>InsufficientBalance\<close> (192, 337), \<open>InvalidTransactionKind\<close> (197),
  \<open>InsufficientFrozenFunds\<close> (360).
\<close>

datatype error =
    DuplicateAccount
  | InvalidTransaction
  | QueueFull
  | AccountNotFound
  | InsufficientBalance
  | InvalidTransactionKind
  | InsufficientFrozenFunds

record 'a Account =
  UserID :: string
  Balance :: 'a
  FrozenAmount :: 'a
  Version :: "64 word"
  UpdatedAt :: time

record 'a SettlementResult =
  TransactionID :: string
  Success :: bool
  NewBalance :: 'a
  ErrorMessage :: "error option"
  Timestamp :: time

record 'a Transaction =
  ID :: string
  UserID :: string
  Amount :: 'a
  Type :: string
  Status :: string
  Timestamp :: time
  Description :: string

type_synonym 'a ledger = "string \<rightharpoonup> 'a Account"

record 'a SettlementEngine =
  accounts :: "'a ledger"
  transactions :: "'a Transaction list"
  settlementChan :: "'a Transaction list"
  chanCap :: nat
  stopChan :: bool
  batchSize :: int
  batchTimeout :: int

definition NewSettlementEngine :: "'a SettlementEngine" where
  "NewSettlementEngine =
     \<lparr>accounts = Map.empty, transactions = [], settlementChan = [], chanCap = 1000,
      stopChan = False, batchSize = 100, batchTimeout = 5 * 1000000000\<rparr>"

subsection \<open>Accounts\<close>

definition CreateAccount ::
  "'a::zero SettlementEngine \<Rightarrow> string \<Rightarrow> 'a \<Rightarrow> time \<Rightarrow> error option \<times> 'a SettlementEngine" where
  "CreateAccount se userID initialBalance now =
     (case accounts se userID of
        Some _ \<Rightarrow> (Some DuplicateAccount, se)
      | None \<Rightarrow>
          (None,
           se\<lparr>accounts := (accounts se)(userID \<mapsto>
              \<lparr>Account.UserID = userID, Balance = initialBalance, FrozenAmount = 0,
               Version = 1, UpdatedAt = now\<rparr>)\<rparr>))"

definition GetAccount :: "'a SettlementEngine \<Rightarrow> string \<Rightarrow> error + 'a Account" where
  "GetAccount se userID =
     (case accounts se userID of None \<Rightarrow> Inl AccountNotFound | Some account \<Rightarrow> Inr account)"

definition FreezeAmount ::
  "'a::{plus,minus,ord} SettlementEngine \<Rightarrow> string \<Rightarrow> 'a \<Rightarrow> time
     \<Rightarrow> error option \<times> 'a SettlementEngine" where
  "FreezeAmount se userID amount now =
     (case accounts se userID of
        None \<Rightarrow> (Some AccountNotFound, se)
      | Some account \<Rightarrow>
          if Balance account < amount then (Some InsufficientBalance, se)
          else
            (None,
             se\<lparr>accounts := (accounts se)(userID \<mapsto>
                account\<lparr>Balance := Balance account - amount,
                        FrozenAmount := FrozenAmount account + amount,
                        Version := Version account + 1,
                        UpdatedAt := now\<rparr>)\<rparr>))"

definition UnfreezeAmount ::
  "'a::{plus,minus,ord} SettlementEngine \<Rightarrow> string \<Rightarrow> 'a \<Rightarrow> time
     \<Rightarrow> error option \<times> 'a SettlementEngine" where
  "UnfreezeAmount se userID amount now =
     (case accounts se userID of
        None \<Rightarrow> (Some AccountNotFound, se)
      | Some account \<Rightarrow>
          if FrozenAmount account < amount then (Some InsufficientFrozenFunds, se)
          else
            (None,
             se\<lparr>accounts := (accounts se)(userID \<mapsto>
                account\<lparr>Balance := Balance account + amount,
                        FrozenAmount := FrozenAmount account - amount,
                        Version := Version account + 1,
                        UpdatedAt := now\<rparr>)\<rparr>))"

subsection \<open>Submission\<close>

text \<open>
  \<open>fmt.Sprintf("tx_%d", n)\<close>: the decimal digits of \<open>n\<close>, with a minus sign when \<open>n\<close> is
  negative.
\<close>

fun decimal :: "nat \<Rightarrow> string" where
  "decimal n =
     (if n < 10 then [''0123456789'' ! n]
      else decimal (n div 10) @ [''0123456789'' ! (n mod 10)])"

definition tx_id :: "time \<Rightarrow> string" where
  "tx_id t = ''tx_'' @ (if t < 0 then ''-'' @ decimal (nat (- t)) else decimal (nat t))"

text \<open>
  \<open>SubmitTransaction\<close> reads the clock twice: \<open>t_id\<close> for the identifier, \<open>t_stamp\<close> for the
  timestamp. The non-blocking send of the \<open>select\<close> succeeds exactly when the channel
  holds fewer elements than its capacity.
\<close>

definition SubmitTransaction ::
  "'a::{ord,zero} SettlementEngine \<Rightarrow> 'a Transaction \<Rightarrow> time \<Rightarrow> time
     \<Rightarrow> error option \<times> 'a SettlementEngine" where
  "SubmitTransaction se tx t_id t_stamp =
     (if UserID tx = [] \<or> Amount tx \<le> 0 then (Some InvalidTransaction, se)
      else
        let tx' = tx\<lparr>ID := tx_id t_id, Timestamp := t_stamp, Status := ''pending''\<rparr>;
            se' = se\<lparr>transactions := transactions se @ [tx']\<rparr>
        in if length (settlementChan se') < chanCap se'
           then (None, se'\<lparr>settlementChan := settlementChan se' @ [tx']\<rparr>)
           else (Some QueueFull, se'))"

subsection \<open>Settlement\<close>

text \<open>
  One iteration of the loop of \<open>batchProcessTransactions\<close> (lines 167 to 213), on the
  ledger \<open>accs\<close>, with \<open>k\<close> clock readings made so far. It returns the result stored at
  \<open>results[i]\<close>, the ledger and the number of readings afterwards. The account is
  reached through the pointer stored under \<open>tx.UserID\<close>, so the update lands there. A
  missing account leaves \<open>NewBalance\<close> at the zero value of its type. The method
  \<open>processTransaction\<close> (lines 107 to 157), which nothing calls, has the same body.
\<close>

definition settle_tx ::
  "clock \<Rightarrow> nat \<Rightarrow> 'a::{plus,minus,ord,zero} ledger \<Rightarrow> 'a Transaction
     \<Rightarrow> 'a SettlementResult \<times> 'a ledger \<times> nat" where
  "settle_tx clk k accs tx =
     (case accs (UserID tx) of
        None \<Rightarrow>
          (\<lparr>TransactionID = ID tx, Success = False, NewBalance = 0,
            ErrorMessage = Some AccountNotFound, SettlementResult.Timestamp = clk k\<rparr>,
           accs, Suc k)
      | Some account \<Rightarrow>
          let (newBalance, success, errorMsg) =
                (if Type tx = ''credit'' then (Balance account + Amount tx, True, None)
                 else if Type tx = ''debit'' then
                   (if Amount tx \<le> Balance account
                    then (Balance account - Amount tx, True, None)
                    else (Balance account, False, Some InsufficientBalance))
                 else (Balance account, False, Some InvalidTransactionKind))
          in if success then
               (\<lparr>TransactionID = ID tx, Success = success, NewBalance = newBalance,
                 ErrorMessage = errorMsg, SettlementResult.Timestamp = clk (Suc k)\<rparr>,
                accs(UserID tx \<mapsto>
                  account\<lparr>Balance := newBalance, Version := Version account + 1,
                          UpdatedAt := clk k\<rparr>),
                Suc (Suc k))
             else
               (\<lparr>TransactionID = ID tx, Success = success, NewBalance = newBalance,
                 ErrorMessage = errorMsg, SettlementResult.Timestamp = clk k\<rparr>,
                accs, Suc k))"

text \<open>The loop \<open>for i, tx := range txs\<close>: the results in input order, the ledger, the clock.\<close>

fun batch_loop ::
  "clock \<Rightarrow> nat \<Rightarrow> 'a::{plus,minus,ord,zero} ledger \<Rightarrow> 'a Transaction list
     \<Rightarrow> 'a SettlementResult list \<times> 'a ledger \<times> nat" where
  "batch_loop clk k accs [] = ([], accs, k)"
| "batch_loop clk k accs (tx # txs) =
     (case settle_tx clk k accs tx of
        (r, accs', k') \<Rightarrow>
          (case batch_loop clk k' accs' txs of
             (rs, accs'', k'') \<Rightarrow> (r # rs, accs'', k'')))"

definition batchProcessTransactions ::
  "'a::{plus,minus,ord,zero} SettlementEngine \<Rightarrow> 'a Transaction list \<Rightarrow> clock
     \<Rightarrow> 'a SettlementResult list \<times> 'a SettlementEngine" where
  "batchProcessTransactions se txs clk =
     (case batch_loop clk 0 (accounts se) txs of
        (results, accs, _) \<Rightarrow> (results, se\<lparr>accounts := accs\<rparr>))"

text \<open>
  \<open>processBatch\<close> settles the batch and counts the results; the two counts are what its
  last \<open>Printf\<close> reports.
\<close>

definition processBatch ::
  "'a::{plus,minus,ord,zero} SettlementEngine \<Rightarrow> 'a Transaction list \<Rightarrow> clock
     \<Rightarrow> (nat \<times> nat) \<times> 'a SettlementEngine" where
  "processBatch se batch clk =
     (case batchProcessTransactions se batch clk of
        (results, se') \<Rightarrow>
          (foldl (\<lambda>(successCount, failCount) result.
                    if Success result then (Suc successCount, failCount)
                    else (successCount, Suc failCount))
                 (0, 0) results,
           se'))"

subsection \<open>The worker\<close>

text \<open>
  The state of the goroutine running \<open>processSettlementQueue\<close>: its batch buffer, how
  often it has called \<open>timer.Reset\<close>, and whether it has returned. Allocating the buffer
  with a negative capacity panics, which is the value \<open>None\<close>.
\<close>

record 'a worker =
  batch :: "'a Transaction list"
  timerResets :: nat
  exited :: bool

definition processSettlementQueue_start :: "'a SettlementEngine \<Rightarrow> 'a worker option" where
  "processSettlementQueue_start se =
     (if batchSize se < 0 then None
      else Some \<lparr>batch = [], timerResets = 0, exited = False\<rparr>)"

text \<open>
  The case that a \<open>select\<close> of the loop takes is an input: which of the ready cases runs
  is the scheduler's choice. A case is ready when the channel has an element
  (\<open>Received\<close>), when the timer has fired (\<open>TimerFired\<close>; the timer is armed whenever the
  loop waits) or when \<open>stopChan\<close> is closed (\<open>StopSignal\<close>).
\<close>

datatype select_case = Received | TimerFired | StopSignal

text \<open>
  One iteration of the \<open>for\<close> loop of \<open>processSettlementQueue\<close>, taking the given case;
  \<open>None\<close> when that case is not ready or the loop has returned.
\<close>

definition processSettlementQueue_step ::
  "select_case \<Rightarrow> clock \<Rightarrow> 'a::{plus,minus,ord,zero} SettlementEngine \<times> 'a worker
     \<Rightarrow> ('a SettlementEngine \<times> 'a worker) option" where
  "processSettlementQueue_step c clk s =
     (case s of (se, w) \<Rightarrow>
        (if exited w then None
         else
           (case c of
              Received \<Rightarrow>
                (case settlementChan se of
                   [] \<Rightarrow> None
                 | tx # rest \<Rightarrow>
                     (let se1 = se\<lparr>settlementChan := rest\<rparr>;
                          b = batch w @ [tx]
                      in if batchSize se1 \<le> int (length b)
                         then Some (snd (processBatch se1 b clk),
                                    w\<lparr>batch := [], timerResets := Suc (timerResets w)\<rparr>)
                         else Some (se1, w\<lparr>batch := b\<rparr>)))
            | TimerFired \<Rightarrow>
                (if 0 < length (batch w)
                 then Some (snd (processBatch se (batch w) clk),
                            w\<lparr>batch := [], timerResets := Suc (timerResets w)\<rparr>)
                 else Some (se, w\<lparr>timerResets := Suc (timerResets w)\<rparr>))
            | StopSignal \<Rightarrow>
                (if \<not> stopChan se then None
                 else if 0 < length (batch w)
                 then Some (snd (processBatch se (batch w) clk), w\<lparr>exited := True\<rparr>)
                 else Some (se, w\<lparr>exited := True\<rparr>)))))"

text \<open>\<open>Stop\<close> closes \<open>stopChan\<close>; closing a closed channel panics (\<open>None\<close>).\<close>

definition Stop :: "'a SettlementEngine \<Rightarrow> 'a SettlementEngine option" where
  "Stop se = (if stopChan se then None else Some (se\<lparr>stopChan := True\<rparr>))"

subsection \<open>Statistics\<close>

text \<open>
  The \<open>map[string]int\<close> that \<open>GetTransactionStats\<close> builds. Reading a key that is not in
  a Go map gives 0; \<open>len(se.accounts)\<close> is the number of keys.
\<close>

definition incr :: "(string \<rightharpoonup> int) \<Rightarrow> string \<Rightarrow> (string \<rightharpoonup> int)" where
  "incr stats key = stats(key \<mapsto> (case stats key of None \<Rightarrow> 0 | Some n \<Rightarrow> n) + 1)"

definition GetTransactionStats :: "'a SettlementEngine \<Rightarrow> (string \<rightharpoonup> int)" where
  "GetTransactionStats se =
     foldl (\<lambda>stats tx.
              if Status tx = ''pending'' then incr stats ''pending_transactions''
              else incr stats ''processed_transactions'')
       [''total_accounts'' \<mapsto> int (card (dom (accounts se))),
        ''total_transactions'' \<mapsto> int (length (transactions se)),
        ''pending_transactions'' \<mapsto> 0,
        ''processed_transactions'' \<mapsto> 0]
       (transactions se)"

subsection \<open>Runs of the engine\<close>

text \<open>
  What can happen to a started engine, one atomic step at a time: a call of one of its
  methods by some goroutine, with the clock readings the call makes, or one iteration
  of the worker. A step that panics or is not ready leaves the state as it is; an
  error return leaves the state the method left.
\<close>

datatype 'a call =
    CallCreateAccount string 'a time
  | CallSubmitTransaction "'a Transaction" time time
  | CallFreezeAmount string 'a time
  | CallUnfreezeAmount string 'a time
  | CallStop
  | WorkerStep select_case clock

type_synonym 'a system = "'a SettlementEngine \<times> 'a worker"

fun exec :: "'a::{plus,minus,ord,zero} system \<Rightarrow> 'a call \<Rightarrow> 'a system" where
  "exec (se, w) (CallCreateAccount userID initialBalance now) =
     (snd (CreateAccount se userID initialBalance now), w)"
| "exec (se, w) (CallSubmitTransaction tx t_id t_stamp) =
     (snd (SubmitTransaction se tx t_id t_stamp), w)"
| "exec (se, w) (CallFreezeAmount userID amount now) =
     (snd (FreezeAmount se userID amount now), w)"
| "exec (se, w) (CallUnfreezeAmount userID amount now) =
     (snd (UnfreezeAmount se userID amount now), w)"
| "exec (se, w) CallStop = (case Stop se of None \<Rightarrow> (se, w) | Some se' \<Rightarrow> (se', w))"
| "exec (se, w) (WorkerStep c clk) =
     (case processSettlementQueue_step c clk (se, w) of None \<Rightarrow> (se, w) | Some s \<Rightarrow> s)"

definition run :: "'a::{plus,minus,ord,zero} system \<Rightarrow> 'a call list \<Rightarrow> 'a system" where
  "run s calls = foldl exec s calls"

text \<open>A new engine whose worker has just been started.\<close>

definition started :: "'a system" where
  "started = (NewSettlementEngine, \<lparr>batch = [], timerResets = 0, exited = False\<rparr>)"

subsection \<open>Positions in a batch\<close>

text \<open>
  The ledger and the number of clock readings when the loop of
  \<open>batchProcessTransactions\<close> reaches index \<open>i\<close> of \<open>txs\<close>: what the iterations for the
  transactions before index \<open>i\<close> have left. This is the account state a transaction
  is settled against, its "processing time".
\<close>

definition processing_state ::
  "clock \<Rightarrow> 'a::{plus,minus,ord,zero} SettlementEngine \<Rightarrow> 'a Transaction list \<Rightarrow> nat
     \<Rightarrow> 'a ledger \<times> nat" where
  "processing_state clk se txs i = snd (batch_loop clk 0 (accounts se) (take i txs))"

subsection \<open>Invariants of a run\<close>




text \<open>Every transaction of the log has the status \<open>pending\<close>.\<close>

definition pending_log :: "'a SettlementEngine \<Rightarrow> bool" where
  "pending_log se = list_all (\<lambda>tx. Status tx = ''pending'') (transactions se)"

subsection \<open>An example engine\<close>

text \<open>
  The two accounts of \<open>main\<close> and its five transactions, followed by a transaction for
  an account that does not exist and one of an unknown type. The clock reads 100,
  101, ... Amounts are real numbers here; every value that occurs is a small integer,
  which \<open>float64\<close> holds exactly.
\<close>

definition demo_clock :: clock where
  "demo_clock k = 100 + int k"

definition demo_engine :: "real SettlementEngine" where
  "demo_engine =
     snd (CreateAccount (snd (CreateAccount NewSettlementEngine ''user1'' 1000 1))
            ''user2'' 500 2)"

definition demo_tx :: "string \<Rightarrow> string \<Rightarrow> real \<Rightarrow> string \<Rightarrow> real Transaction" where
  "demo_tx i u a ty =
     \<lparr>ID = i, UserID = u, Amount = a, Type = ty, Status = ''pending'', Timestamp = 0,
      Description = []\<rparr>"

definition demo_batch :: "real Transaction list" where
  "demo_batch =
     [demo_tx ''tx_1'' ''user1'' 100 ''debit'',
      demo_tx ''tx_2'' ''user2'' 50 ''credit'',
      demo_tx ''tx_3'' ''user1'' 200 ''debit'',
      demo_tx ''tx_4'' ''user1'' 1500 ''debit'',
      demo_tx ''tx_5'' ''user2'' 30 ''credit'',
      demo_tx ''tx_6'' ''user3'' 10 ''credit'',
      demo_tx ''tx_7'' ''user1'' 10 ''refund'']"



definition demo_settled :: "real call list" where
  "demo_settled =
     [CallCreateAccount ''user1'' 1000 1,
      CallSubmitTransaction (demo_tx [] ''user1'' 100 ''debit'') 2 3,
      WorkerStep Received demo_clock,
      WorkerStep TimerFired demo_clock]"

text \<open>
  A worker with batch size 2 (the tests set \<open>batchSize\<close> after construction) before and
  after it has received the first of two queued transactions, and an engine whose
  channel is full.
\<close>

definition demo_worker :: "real SettlementEngine \<times> real worker" where
  "demo_worker =
     (demo_engine\<lparr>batchSize := 2,
                  settlementChan := [demo_tx ''tx_1'' ''user1'' 100 ''debit'',
                                     demo_tx ''tx_2'' ''user2'' 50 ''credit'']\<rparr>,
      \<lparr>batch = [], timerResets = 0, exited = False\<rparr>)"

definition demo_worker_1 :: "real SettlementEngine \<times> real worker" where
  "demo_worker_1 =
     (demo_engine\<lparr>batchSize := 2,
                  settlementChan := [demo_tx ''tx_2'' ''user2'' 50 ''credit'']\<rparr>,
      \<lparr>batch = [demo_tx ''tx_1'' ''user1'' 100 ''debit''], timerResets = 0,
       exited = False\<rparr>)"

definition demo_full :: "real SettlementEngine" where
  "demo_full =
     demo_engine\<lparr>settlementChan := replicate 1000 (demo_tx ''tx_1'' ''user1'' 100 ''debit'')\<rparr>"

text \<open>The example engine after \<open>FreezeAmount("user1", 200)\<close>.\<close>

definition demo_frozen :: "real SettlementEngine" where
  "demo_frozen = snd (FreezeAmount demo_engine ''user1'' 200 3)"

declare decimal.simps [simp del]

section \<open>Settlement of a batch\<close>

subsection \<open>The loop\<close>

lemma batch_loop_append:
  "batch_loop clk k accs (xs @ ys) =
     (case batch_loop clk k accs xs of
        (r1, a1, k1) \<Rightarrow>
          (case batch_loop clk k1 a1 ys of (r2, a2, k2) \<Rightarrow> (r1 @ r2, a2, k2)))"
  by (induction xs arbitrary: k accs) (auto split: prod.splits)

lemma settle_tx_id: "TransactionID (fst (settle_tx clk k accs tx)) = ID tx"
  by (simp add: settle_tx_def Let_def split: option.splits prod.splits)

lemma batch_loop_ids: "map TransactionID (fst (batch_loop clk k accs txs)) = map ID txs"
proof (induction txs arbitrary: k accs)
  case Nil
  show ?case by simp
next
  case (Cons tx txs)
  obtain r a k1 where s: "settle_tx clk k accs tx = (r, a, k1)"
    by (cases "settle_tx clk k accs tx") auto
  obtain rs a2 k2 where l: "batch_loop clk k1 a txs = (rs, a2, k2)"
    by (cases "batch_loop clk k1 a txs") auto
  from Cons.IH [of k1 a] l have "map TransactionID rs = map ID txs" by simp
  moreover from settle_tx_id [of clk k accs tx] s have "TransactionID r = ID tx" by simp
  ultimately show ?case using s l by simp
qed

lemma batch_loop_length: "length (fst (batch_loop clk k accs txs)) = length txs"
  using batch_loop_ids [of clk k accs txs] by (metis length_map)

lemma settle_tx_shift:
  "settle_tx clk (k + n) accs tx =
     (case settle_tx (\<lambda>j. clk (j + n)) k accs tx of (r, a, k') \<Rightarrow> (r, a, k' + n))"
  by (simp add: settle_tx_def Let_def split: option.splits prod.splits)

lemma batch_loop_shift:
  "batch_loop clk (k + n) accs txs =
     (case batch_loop (\<lambda>j. clk (j + n)) k accs txs of (rs, a, k') \<Rightarrow> (rs, a, k' + n))"
proof (induction txs arbitrary: k accs)
  case Nil
  show ?case by simp
next
  case (Cons tx txs)
  obtain r a k1 where s: "settle_tx (\<lambda>j. clk (j + n)) k accs tx = (r, a, k1)"
    by (cases "settle_tx (\<lambda>j. clk (j + n)) k accs tx") auto
  then have s': "settle_tx clk (k + n) accs tx = (r, a, k1 + n)"
    by (simp add: settle_tx_shift)
  show ?case using s s' Cons.IH [of k1 a] by (simp split: prod.splits)
qed

lemma batch_loop_nth:
  assumes "i < length txs" and "batch_loop clk k0 accs0 (take i txs) = (rs, accs, k)"
  shows "fst (batch_loop clk k0 accs0 txs) ! i = fst (settle_tx clk k accs (txs ! i))"
    and "batch_loop clk k0 accs0 (take (Suc i) txs) =
           (rs @ [fst (settle_tx clk k accs (txs ! i))], snd (settle_tx clk k accs (txs ! i)))"
proof -
  have len: "length rs = i"
    using batch_loop_length [of clk k0 accs0 "take i txs"] assms by simp
  have split: "txs = take i txs @ (txs ! i) # drop (Suc i) txs"
    using assms(1) by (simp add: id_take_nth_drop)
  have "batch_loop clk k0 accs0 txs =
          batch_loop clk k0 accs0 (take i txs @ (txs ! i) # drop (Suc i) txs)"
    using split by simp
  also have "\<dots> = (case batch_loop clk k accs ((txs ! i) # drop (Suc i) txs) of
                     (r2, a2, k2) \<Rightarrow> (rs @ r2, a2, k2))"
    by (simp only: batch_loop_append assms(2) prod.case)
  finally show "fst (batch_loop clk k0 accs0 txs) ! i = fst (settle_tx clk k accs (txs ! i))"
    using len by (auto split: prod.splits)
  have "take (Suc i) txs = take i txs @ [txs ! i]"
    using assms(1) by (simp add: take_Suc_conv_app_nth)
  then show "batch_loop clk k0 accs0 (take (Suc i) txs) =
           (rs @ [fst (settle_tx clk k accs (txs ! i))], snd (settle_tx clk k accs (txs ! i)))"
    by (simp add: batch_loop_append assms(2) split: prod.splits)
qed

lemma result_at:
  assumes "i < length txs" and "processing_state clk se txs i = (accs, k)"
  shows "fst (batchProcessTransactions se txs clk) ! i = fst (settle_tx clk k accs (txs ! i))"
proof -
  obtain rs where "batch_loop clk 0 (accounts se) (take i txs) = (rs, accs, k)"
    using assms(2) by (cases "batch_loop clk 0 (accounts se) (take i txs)")
      (simp add: processing_state_def)
  from batch_loop_nth(1) [OF assms(1) this] show ?thesis
    by (auto simp: batchProcessTransactions_def split: prod.splits)
qed

lemma state_after:
  assumes "i < length txs" and "processing_state clk se txs i = (accs, k)"
  shows "processing_state clk se txs (Suc i) = snd (settle_tx clk k accs (txs ! i))"
proof -
  obtain rs where "batch_loop clk 0 (accounts se) (take i txs) = (rs, accs, k)"
    using assms(2) by (cases "batch_loop clk 0 (accounts se) (take i txs)")
      (simp add: processing_state_def)
  from batch_loop_nth(2) [OF assms(1) this] show ?thesis
    by (simp add: processing_state_def)
qed

lemma state_first: "processing_state clk se txs 0 = (accounts se, 0)"
  by (simp add: processing_state_def)

subsection \<open>One transaction\<close>







lemma batch_results:
  "fst (batchProcessTransactions se txs clk) = fst (batch_loop clk 0 (accounts se) txs)"
  by (cases "batch_loop clk 0 (accounts se) txs") (simp add: batchProcessTransactions_def)

lemma batch_engine:
  "snd (batchProcessTransactions se txs clk) =
     se\<lparr>accounts := fst (snd (batch_loop clk 0 (accounts se) txs))\<rparr>"
  by (cases "batch_loop clk 0 (accounts se) txs") (simp add: batchProcessTransactions_def)

subsection \<open>The example, evaluated\<close>

lemmas demo_defs = demo_clock_def demo_engine_def demo_tx_def demo_batch_def
  NewSettlementEngine_def CreateAccount_def processing_state_def settle_tx_def
  batchProcessTransactions_def







section \<open>Claims about settlement\<close>







text \<open>
  C10. \<open>batchProcessTransactions\<close> returns one result per transaction, the result at
  index \<open>i\<close> carries the identifier of the transaction at index \<open>i\<close>, and the
  transactions are applied in input order: the loop starts from the engine's ledger,
  the result at index \<open>i\<close> is the settlement of transaction \<open>i\<close> against the state left
  by the transactions before it, which gives the state for the next one, and the
  engine returned holds the ledger reached after the last.
\<close>

theorem batch_results_in_order:
  "length (fst (batchProcessTransactions se txs clk)) = length txs \<and>
   (\<forall>i<length txs.
      TransactionID (fst (batchProcessTransactions se txs clk) ! i) = ID (txs ! i)) \<and>
   processing_state clk se txs 0 = (accounts se, 0) \<and>
   (\<forall>i<length txs.
      fst (batchProcessTransactions se txs clk) ! i =
        fst (settle_tx clk (snd (processing_state clk se txs i))
               (fst (processing_state clk se txs i)) (txs ! i)) \<and>
      processing_state clk se txs (Suc i) =
        snd (settle_tx clk (snd (processing_state clk se txs i))
               (fst (processing_state clk se txs i)) (txs ! i))) \<and>
   snd (batchProcessTransactions se txs clk) =
     se\<lparr>accounts := fst (processing_state clk se txs (length txs))\<rparr>"
proof -
  have len: "length (fst (batchProcessTransactions se txs clk)) = length txs"
    by (simp add: batch_results batch_loop_length)
  have ids: "\<forall>i<length txs.
      TransactionID (fst (batchProcessTransactions se txs clk) ! i) = ID (txs ! i)"
  proof (intro allI impI)
    fix i assume i: "i < length txs"
    have "map TransactionID (fst (batchProcessTransactions se txs clk)) = map ID txs"
      by (simp add: batch_results batch_loop_ids)
    then have "map TransactionID (fst (batchProcessTransactions se txs clk)) ! i
                 = map ID txs ! i"
      by simp
    then show "TransactionID (fst (batchProcessTransactions se txs clk) ! i) = ID (txs ! i)"
      using i len by simp
  qed
  have step: "\<forall>i<length txs.
      fst (batchProcessTransactions se txs clk) ! i =
        fst (settle_tx clk (snd (processing_state clk se txs i))
               (fst (processing_state clk se txs i)) (txs ! i)) \<and>
      processing_state clk se txs (Suc i) =
        snd (settle_tx clk (snd (processing_state clk se txs i))
               (fst (processing_state clk se txs i)) (txs ! i))"
  proof (intro allI impI)
    fix i assume i: "i < length txs"
    have p: "processing_state clk se txs i =
               (fst (processing_state clk se txs i), snd (processing_state clk se txs i))"
      by simp
    show "fst (batchProcessTransactions se txs clk) ! i =
        fst (settle_tx clk (snd (processing_state clk se txs i))
               (fst (processing_state clk se txs i)) (txs ! i)) \<and>
      processing_state clk se txs (Suc i) =
        snd (settle_tx clk (snd (processing_state clk se txs i))
               (fst (processing_state clk se txs i)) (txs ! i))"
      using result_at [OF i p] state_after [OF i p] by simp
  qed
  have fin: "snd (batchProcessTransactions se txs clk) =
     se\<lparr>accounts := fst (processing_state clk se txs (length txs))\<rparr>"
    by (simp add: processing_state_def batch_engine)
  show ?thesis
    using len ids step fin state_first [of clk se txs] by blast
qed

theorem batch_results_in_order_witness:
  "length (fst (batchProcessTransactions demo_engine demo_batch demo_clock)) = 7 \<and>
   TransactionID (fst (batchProcessTransactions demo_engine demo_batch demo_clock) ! 4)
     = ''tx_5'' \<and>
   fst (batchProcessTransactions demo_engine demo_batch demo_clock) ! 4 =
     fst (settle_tx demo_clock (snd (processing_state demo_clock demo_engine demo_batch 4))
            (fst (processing_state demo_clock demo_engine demo_batch 4)) (demo_batch ! 4)) \<and>
   NewBalance (fst (batchProcessTransactions demo_engine demo_batch demo_clock) ! 4) = 580"
proof -
  have 4: "4 < length demo_batch" and l: "length demo_batch = 7"
    by (simp_all add: demo_batch_def)
  have i: "ID (demo_batch ! 4) = ''tx_5''" by (simp add: demo_batch_def demo_tx_def)
  have n: "NewBalance (fst (settle_tx demo_clock
             (snd (processing_state demo_clock demo_engine demo_batch 4))
             (fst (processing_state demo_clock demo_engine demo_batch 4)) (demo_batch ! 4))) = 580"
    by (simp add: demo_defs)
  show ?thesis
    using batch_results_in_order [of demo_engine demo_batch demo_clock] 4 l i n by auto
qed

section \<open>Claims about accounts and submission\<close>

text \<open>
  C9. \<open>CreateAccount\<close> does not look at the initial balance. For a user identifier
  that is not in the ledger it succeeds, whatever the balance (zero and negative
  values too), and stores an account with that balance, frozen amount 0 and version
  1. For an identifier that is in the ledger it returns \<open>DuplicateAccount\<close> and the
  engine is as before. It returns no other error.
\<close>

theorem create_account:
  "(accounts se userID = None \<longrightarrow>
      CreateAccount se userID initialBalance now =
        (None,
         se\<lparr>accounts := (accounts se)(userID \<mapsto>
            \<lparr>Account.UserID = userID, Balance = initialBalance, FrozenAmount = 0,
             Version = 1, UpdatedAt = now\<rparr>)\<rparr>)) \<and>
   (accounts se userID \<noteq> None \<longrightarrow>
      CreateAccount se userID initialBalance now = (Some DuplicateAccount, se)) \<and>
   (fst (CreateAccount se userID initialBalance now) = None \<or>
    fst (CreateAccount se userID initialBalance now) = Some DuplicateAccount)"
  by (auto simp: CreateAccount_def split: option.splits)

theorem create_account_witness:
  "accounts (NewSettlementEngine :: real SettlementEngine) ''user1'' = None \<and>
   CreateAccount NewSettlementEngine ''user1'' (- 25 :: real) 7 =
     (None,
      NewSettlementEngine\<lparr>accounts :=
        [''user1'' \<mapsto> \<lparr>Account.UserID = ''user1'', Balance = - 25, FrozenAmount = 0,
                         Version = 1, UpdatedAt = 7\<rparr>]\<rparr>) \<and>
   accounts demo_engine ''user1'' \<noteq> None \<and>
   CreateAccount demo_engine ''user1'' 500 9 = (Some DuplicateAccount, demo_engine)"
proof -
  have 1: "accounts (NewSettlementEngine :: real SettlementEngine) ''user1'' = None"
    by (simp add: NewSettlementEngine_def)
  have 2: "accounts demo_engine ''user1'' \<noteq> None"
    by (simp add: demo_engine_def CreateAccount_def NewSettlementEngine_def)
  show ?thesis
    using create_account [of "NewSettlementEngine :: real SettlementEngine" "''user1''" "- 25" 7]
      create_account [of demo_engine "''user1''" 500 9] 1 2
    by (simp add: NewSettlementEngine_def)
qed

text \<open>
  C4. \<open>SubmitTransaction\<close> returns \<open>InvalidTransaction\<close> exactly when the user
  identifier is empty or the amount is \<open>\<le> 0\<close>, and then the engine, its log included,
  is as before. A transaction that passes this check is appended to the log with its
  identifier, timestamp and the status \<open>pending\<close>; when the channel is full the call
  returns \<open>QueueFull\<close> and the log entry stays, otherwise the transaction is also
  queued and the call returns no error.
\<close>

theorem submit_transaction:
  "(fst (SubmitTransaction se tx t_id t_stamp) = Some InvalidTransaction
      \<longleftrightarrow> UserID tx = [] \<or> Amount tx \<le> 0) \<and>
   (UserID tx = [] \<or> Amount tx \<le> 0 \<longrightarrow> snd (SubmitTransaction se tx t_id t_stamp) = se) \<and>
   (\<not> (UserID tx = [] \<or> Amount tx \<le> 0) \<longrightarrow>
      transactions (snd (SubmitTransaction se tx t_id t_stamp)) =
        transactions se @ [tx\<lparr>ID := tx_id t_id, Timestamp := t_stamp, Status := ''pending''\<rparr>] \<and>
      (chanCap se \<le> length (settlementChan se) \<longrightarrow>
         SubmitTransaction se tx t_id t_stamp =
           (Some QueueFull,
            se\<lparr>transactions := transactions se @
                 [tx\<lparr>ID := tx_id t_id, Timestamp := t_stamp, Status := ''pending''\<rparr>]\<rparr>)) \<and>
      (length (settlementChan se) < chanCap se \<longrightarrow>
         SubmitTransaction se tx t_id t_stamp =
           (None,
            se\<lparr>transactions := transactions se @
                 [tx\<lparr>ID := tx_id t_id, Timestamp := t_stamp, Status := ''pending''\<rparr>],
               settlementChan := settlementChan se @
                 [tx\<lparr>ID := tx_id t_id, Timestamp := t_stamp, Status := ''pending''\<rparr>]\<rparr>)))"
  by (auto simp: SubmitTransaction_def Let_def)

theorem submit_transaction_witness:
  "SubmitTransaction demo_engine (demo_tx [] [] 50 ''debit'') 5 6
     = (Some InvalidTransaction, demo_engine) \<and>
   SubmitTransaction demo_engine (demo_tx [] ''user1'' 0 ''debit'') 5 6
     = (Some InvalidTransaction, demo_engine) \<and>
   chanCap demo_full \<le> length (settlementChan demo_full) \<and>
   SubmitTransaction demo_full (demo_tx [] ''user9'' 50 ''debit'') 5 6
     = (Some QueueFull,
        demo_full\<lparr>transactions :=
          [\<lparr>ID = ''tx_5'', UserID = ''user9'', Amount = 50, Type = ''debit'',
            Status = ''pending'', Timestamp = 6, Description = []\<rparr>]\<rparr>) \<and>
   SubmitTransaction demo_engine (demo_tx [] ''user9'' 50 ''debit'') 5 6
     = (None,
        demo_engine\<lparr>transactions :=
          [\<lparr>ID = ''tx_5'', UserID = ''user9'', Amount = 50, Type = ''debit'',
            Status = ''pending'', Timestamp = 6, Description = []\<rparr>],
          settlementChan :=
          [\<lparr>ID = ''tx_5'', UserID = ''user9'', Amount = 50, Type = ''debit'',
            Status = ''pending'', Timestamp = 6, Description = []\<rparr>]\<rparr>)"
proof -
  have t: "transactions demo_engine = []" "settlementChan demo_engine = []"
    "chanCap demo_engine = 1000"
    by (simp_all add: demo_engine_def CreateAccount_def NewSettlementEngine_def)
  have f: "transactions demo_full = []" "length (settlementChan demo_full) = 1000"
    "chanCap demo_full = 1000"
    by (simp_all add: demo_full_def t)
  have i: "tx_id 5 = ''tx_5''" by (simp add: tx_id_def decimal.simps)
  note a = submit_transaction [of demo_engine "demo_tx [] [] 50 ''debit''" 5 6]
    submit_transaction [of demo_engine "demo_tx [] ''user1'' 0 ''debit''" 5 6]
    submit_transaction [of demo_full "demo_tx [] ''user9'' 50 ''debit''" 5 6]
    submit_transaction [of demo_engine "demo_tx [] ''user9'' 50 ''debit''" 5 6]
  show ?thesis
    using a t f i by (simp add: demo_tx_def prod_eq_iff)
qed

section \<open>Claims about freezing\<close>





section \<open>Claims about the worker\<close>

lemma processBatch_engine:
  "snd (processBatch se b clk) = se\<lparr>accounts := fst (snd (batch_loop clk 0 (accounts se) b))\<rparr>"
  using batch_engine [of se b clk]
  by (cases "batchProcessTransactions se b clk") (simp add: processBatch_def)

lemma processBatch_snd:
  "snd (processBatch se b clk) = snd (batchProcessTransactions se b clk)"
  by (cases "batchProcessTransactions se b clk") (simp add: processBatch_def)

text \<open>
  C8. One iteration of the loop of \<open>processSettlementQueue\<close>, for a worker that has
  not returned. A received transaction is appended to the buffer; when that makes
  the buffer reach \<open>batchSize\<close> the buffer is settled at once by
  \<open>batchProcessTransactions\<close>, emptied, and the timer is reset; below \<open>batchSize\<close>
  nothing is settled. When the timer fires, a non-empty buffer is settled and
  emptied, an empty buffer leaves the engine as it is, and the timer is reset in both
  cases. On the stop signal a non-empty buffer is settled and the loop returns, after
  which no iteration runs.
\<close>

theorem worker_iteration:
  assumes "\<not> exited w"
  shows
    "(settlementChan se = tx # rest \<and> batchSize se \<le> int (length (batch w @ [tx])) \<longrightarrow>
        processSettlementQueue_step Received clk (se, w) =
          Some (snd (batchProcessTransactions (se\<lparr>settlementChan := rest\<rparr>)
                       (batch w @ [tx]) clk),
                w\<lparr>batch := [], timerResets := Suc (timerResets w)\<rparr>)) \<and>
     (settlementChan se = tx # rest \<and> int (length (batch w @ [tx])) < batchSize se \<longrightarrow>
        processSettlementQueue_step Received clk (se, w) =
          Some (se\<lparr>settlementChan := rest\<rparr>, w\<lparr>batch := batch w @ [tx]\<rparr>)) \<and>
     (batch w \<noteq> [] \<longrightarrow>
        processSettlementQueue_step TimerFired clk (se, w) =
          Some (snd (batchProcessTransactions se (batch w) clk),
                w\<lparr>batch := [], timerResets := Suc (timerResets w)\<rparr>)) \<and>
     (batch w = [] \<longrightarrow>
        processSettlementQueue_step TimerFired clk (se, w) =
          Some (se, w\<lparr>timerResets := Suc (timerResets w)\<rparr>)) \<and>
     (stopChan se \<and> batch w \<noteq> [] \<longrightarrow>
        processSettlementQueue_step StopSignal clk (se, w) =
          Some (snd (batchProcessTransactions se (batch w) clk), w\<lparr>exited := True\<rparr>)) \<and>
     (stopChan se \<and> batch w = [] \<longrightarrow>
        processSettlementQueue_step StopSignal clk (se, w) = Some (se, w\<lparr>exited := True\<rparr>)) \<and>
     (\<forall>c se'. processSettlementQueue_step c clk (se', w\<lparr>exited := True\<rparr>) = None)"
  using assms
  by (auto simp: processSettlementQueue_step_def processBatch_snd Let_def)

theorem worker_iteration_witness:
  "processSettlementQueue_step Received demo_clock demo_worker = Some demo_worker_1 \<and>
   map_option snd (processSettlementQueue_step Received demo_clock demo_worker_1) =
     Some \<lparr>batch = [], timerResets = 1, exited = False\<rparr> \<and>
   map_option fst (processSettlementQueue_step Received demo_clock demo_worker_1) =
     Some (snd (batchProcessTransactions (demo_engine\<lparr>batchSize := 2, settlementChan := []\<rparr>)
                  [demo_tx ''tx_1'' ''user1'' 100 ''debit'',
                   demo_tx ''tx_2'' ''user2'' 50 ''credit''] demo_clock)) \<and>
   accounts (snd (batchProcessTransactions (demo_engine\<lparr>batchSize := 2, settlementChan := []\<rparr>)
                  [demo_tx ''tx_1'' ''user1'' 100 ''debit'',
                   demo_tx ''tx_2'' ''user2'' 50 ''credit''] demo_clock)) ''user1'' =
     Some \<lparr>Account.UserID = ''user1'', Balance = 900, FrozenAmount = 0, Version = 2,
           UpdatedAt = 100\<rparr> \<and>
   processSettlementQueue_step TimerFired demo_clock
       (demo_engine, \<lparr>batch = [], timerResets = 4, exited = False\<rparr>) =
     Some (demo_engine, \<lparr>batch = [], timerResets = 5, exited = False\<rparr>) \<and>
   processSettlementQueue_step TimerFired demo_clock
       (demo_engine, \<lparr>batch = [demo_tx ''tx_4'' ''user1'' 1500 ''debit''], timerResets = 4,
                      exited = False\<rparr>) =
     Some (demo_engine, \<lparr>batch = [], timerResets = 5, exited = False\<rparr>) \<and>
   processSettlementQueue_step StopSignal demo_clock
       (demo_engine\<lparr>stopChan := True\<rparr>, \<lparr>batch = [], timerResets = 5, exited = False\<rparr>) =
     Some (demo_engine\<lparr>stopChan := True\<rparr>, \<lparr>batch = [], timerResets = 5, exited = True\<rparr>) \<and>
   processSettlementQueue_step Received demo_clock
       (demo_engine, \<lparr>batch = [], timerResets = 5, exited = True\<rparr>) = None"
proof -
  let ?tx1 = "demo_tx ''tx_1'' ''user1'' 100 ''debit''"
  let ?tx2 = "demo_tx ''tx_2'' ''user2'' 50 ''credit''"
  let ?se = "demo_engine\<lparr>batchSize := 2, settlementChan := [?tx1, ?tx2]\<rparr>"
  let ?se1 = "demo_engine\<lparr>batchSize := 2, settlementChan := [?tx2]\<rparr>"
  let ?w = "\<lparr>batch = [], timerResets = 0, exited = False\<rparr> :: real worker"
  let ?w1 = "\<lparr>batch = [?tx1], timerResets = 0, exited = False\<rparr>"
  let ?w4 = "\<lparr>batch = [], timerResets = 4, exited = False\<rparr> :: real worker"
  let ?w4' = "\<lparr>batch = [demo_tx ''tx_4'' ''user1'' 1500 ''debit''], timerResets = 4,
               exited = False\<rparr>"
  let ?w5 = "\<lparr>batch = [], timerResets = 5, exited = False\<rparr> :: real worker"
  have e: "\<not> exited ?w" "\<not> exited ?w1" "\<not> exited ?w4" "\<not> exited ?w4'" "\<not> exited ?w5"
    by simp_all
  have fail: "snd (batchProcessTransactions demo_engine
                     [demo_tx ''tx_4'' ''user1'' 1500 ''debit''] demo_clock) = demo_engine"
    by (simp add: demo_defs)
  note a = worker_iteration [OF e(1), of ?se ?tx1 "[?tx2]" demo_clock]
    worker_iteration [OF e(2), of ?se1 ?tx2 "[]" demo_clock]
    worker_iteration [OF e(3), of demo_engine ?tx1 "[]" demo_clock]
    worker_iteration [OF e(4), of demo_engine ?tx1 "[]" demo_clock]
    worker_iteration [OF e(5), of "demo_engine\<lparr>stopChan := True\<rparr>" ?tx1 "[]" demo_clock]
  have u: "accounts (snd (batchProcessTransactions
                  (demo_engine\<lparr>batchSize := 2, settlementChan := []\<rparr>)
                  [?tx1, ?tx2] demo_clock)) ''user1'' =
     Some \<lparr>Account.UserID = ''user1'', Balance = 900, FrozenAmount = 0, Version = 2,
           UpdatedAt = 100\<rparr>"
    by (simp add: demo_defs)
  show ?thesis
    using a u fail by (simp add: demo_worker_def demo_worker_1_def)
qed

section \<open>Claims about runs\<close>

subsection \<open>Balances and frozen amounts\<close>














subsection \<open>The status of logged transactions\<close>

text \<open>
  No method and no iteration of the worker writes the \<open>Status\<close> of a log entry: the
  log holds a copy of the submitted transaction, and settlement touches only
  accounts. So in every run the log stays all \<open>pending\<close> and the statistics never
  count a processed transaction.
\<close>

lemma exec_pending_log:
  "pending_log (fst s) \<Longrightarrow> pending_log (fst (exec s c))"
proof (cases s)
  case (Pair se w)
  assume p: "pending_log (fst s)"
  show ?thesis
  proof (cases c)
    case (WorkerStep sc clk)
    then show ?thesis
      using p Pair
      by (cases sc)
        (auto simp: pending_log_def processSettlementQueue_step_def processBatch_engine
          Let_def split: list.splits)
  qed (use p Pair in \<open>auto simp: pending_log_def CreateAccount_def SubmitTransaction_def
        FreezeAmount_def UnfreezeAmount_def Stop_def Let_def split: option.splits\<close>)
qed

lemma run_pending_log: "pending_log (fst s) \<Longrightarrow> pending_log (fst (run s calls))"
proof (induction calls arbitrary: s)
  case Nil
  then show ?case by (simp add: run_def)
next
  case (Cons c calls)
  from Cons.IH [of "exec s c"] exec_pending_log [OF Cons.prems, of c]
  show ?case by (simp add: run_def)
qed

lemma stats_fold:
  "foldl (\<lambda>stats tx.
              if Status tx = ''pending'' then incr stats ''pending_transactions''
              else incr stats ''processed_transactions'') m txs ''processed_transactions''
   = (case m ''processed_transactions'' of
        None \<Rightarrow> if list_all (\<lambda>tx. Status tx = ''pending'') txs then None
                 else Some (int (length (filter (\<lambda>tx. Status tx \<noteq> ''pending'') txs)))
      | Some n \<Rightarrow> Some (n + int (length (filter (\<lambda>tx. Status tx \<noteq> ''pending'') txs))))"
  by (induction txs arbitrary: m) (auto simp: incr_def split: option.splits)

lemma processed_always_zero:
  "GetTransactionStats (fst (run started calls)) ''processed_transactions'' = Some 0"
proof -
  have "pending_log (fst (started :: 'a system))"
    by (simp add: pending_log_def started_def NewSettlementEngine_def)
  then have "pending_log (fst (run started calls))" by (rule run_pending_log)
  then have "filter (\<lambda>tx. Status tx \<noteq> ''pending'') (transactions (fst (run started calls))) = []"
    by (auto simp: pending_log_def list_all_iff filter_empty_conv)
  then show ?thesis
    by (simp add: GetTransactionStats_def stats_fold)
qed

text \<open>
  C2. The claim is that the worker sets the status of each transaction it settles to
  a terminal status, so that \<open>GetTransactionStats\<close> counts it as processed. In the
  run \<open>demo_settled\<close> the debit of 100 is settled (the balance is 900, channel and
  buffer are empty), yet its log entry is still \<open>pending\<close> and is counted as pending.
\<close>

theorem settled_transaction_stays_pending:
  "accounts (fst (run started demo_settled)) ''user1'' =
     Some \<lparr>Account.UserID = ''user1'', Balance = 900, FrozenAmount = 0, Version = 2,
           UpdatedAt = 100\<rparr> \<and>
   settlementChan (fst (run started demo_settled)) = [] \<and>
   batch (snd (run started demo_settled)) = [] \<and>
   map Status (transactions (fst (run started demo_settled))) = [''pending''] \<and>
   GetTransactionStats (fst (run started demo_settled)) ''total_transactions'' = Some 1 \<and>
   GetTransactionStats (fst (run started demo_settled)) ''pending_transactions'' = Some 1 \<and>
   GetTransactionStats (fst (run started demo_settled)) ''processed_transactions'' = Some 0"
  by (simp add: run_def started_def demo_settled_def demo_tx_def demo_clock_def
      NewSettlementEngine_def CreateAccount_def SubmitTransaction_def Let_def
      processSettlementQueue_step_def processBatch_engine settle_tx_def
      GetTransactionStats_def incr_def)

section \<open>Further properties\<close>

lemma receive_below_batchSize:
  assumes "\<not> exited w" and "settlementChan se = xs @ rest"
    and "int (length (batch w) + length xs) < batchSize se"
  shows "run (se, w) (replicate (length xs) (WorkerStep Received clk)) =
           (se\<lparr>settlementChan := rest\<rparr>, w\<lparr>batch := batch w @ xs\<rparr>)"
  using assms
proof (induction xs arbitrary: se w)
  case Nil
  then show ?case by (simp add: run_def)
next
  case (Cons tx xs)
  have step: "exec (se, w) (WorkerStep Received clk) =
                (se\<lparr>settlementChan := xs @ rest\<rparr>, w\<lparr>batch := batch w @ [tx]\<rparr>)"
    using Cons.prems by (simp add: processSettlementQueue_step_def)
  have "run (se\<lparr>settlementChan := xs @ rest\<rparr>, w\<lparr>batch := batch w @ [tx]\<rparr>)
          (replicate (length xs) (WorkerStep Received clk)) =
        (se\<lparr>settlementChan := xs @ rest\<rparr>\<lparr>settlementChan := rest\<rparr>,
         w\<lparr>batch := batch w @ [tx]\<rparr>\<lparr>batch := batch (w\<lparr>batch := batch w @ [tx]\<rparr>) @ xs\<rparr>)"
    using Cons.prems by (intro Cons.IH) simp_all
  then show ?case
    using step by (simp add: run_def)
qed

text \<open>
  A worker with an empty buffer and a batch size equal to the number of
  transactions it then receives settles exactly those transactions, in queue order,
  on receiving the last of them: no timer is involved, the buffer is empty
  afterwards and the timer has been reset once.
\<close>

theorem size_triggered_flush:
  assumes "\<not> exited w" and "batch w = []"
    and "settlementChan se = xs @ tx # rest"
    and "batchSize se = int (length (xs @ [tx]))"
  shows "run (se, w) (replicate (length (xs @ [tx])) (WorkerStep Received clk)) =
           (snd (batchProcessTransactions (se\<lparr>settlementChan := rest\<rparr>) (xs @ [tx]) clk),
            w\<lparr>batch := [], timerResets := Suc (timerResets w)\<rparr>)"
proof -
  have a: "run (se, w) (replicate (length xs) (WorkerStep Received clk)) =
           (se\<lparr>settlementChan := tx # rest\<rparr>, w\<lparr>batch := batch w @ xs\<rparr>)"
    using assms by (intro receive_below_batchSize) simp_all
  have r: "replicate (length (xs @ [tx])) (WorkerStep Received clk) =
          replicate (length xs) (WorkerStep Received clk) @ [WorkerStep Received clk]"
    by (simp add: replicate_append_same)
  have "run (se, w) (replicate (length (xs @ [tx])) (WorkerStep Received clk)) =
          exec (run (se, w) (replicate (length xs) (WorkerStep Received clk)))
            (WorkerStep Received clk)"
    unfolding r run_def foldl_append by (simp only: foldl.simps)
  also have "\<dots> = exec (se\<lparr>settlementChan := tx # rest\<rparr>, w\<lparr>batch := xs\<rparr>)
                      (WorkerStep Received clk)"
    using a assms(2) by simp
  also have "\<dots> = (snd (batchProcessTransactions (se\<lparr>settlementChan := rest\<rparr>) (xs @ [tx]) clk),
            w\<lparr>batch := [], timerResets := Suc (timerResets w)\<rparr>)"
    using assms(1,4) by (simp add: processSettlementQueue_step_def processBatch_snd)
  finally show ?thesis .
qed

theorem size_triggered_flush_witness:
  "\<not> exited (snd demo_worker) \<and> batch (snd demo_worker) = [] \<and>
   settlementChan (fst demo_worker) =
     [demo_tx ''tx_1'' ''user1'' 100 ''debit''] @ demo_tx ''tx_2'' ''user2'' 50 ''credit'' # [] \<and>
   batchSize (fst demo_worker) = 2 \<and>
   snd (run demo_worker [WorkerStep Received demo_clock, WorkerStep Received demo_clock]) =
     \<lparr>batch = [], timerResets = 1, exited = False\<rparr> \<and>
   accounts (fst (run demo_worker
       [WorkerStep Received demo_clock, WorkerStep Received demo_clock])) ''user2'' =
     Some \<lparr>Account.UserID = ''user2'', Balance = 550, FrozenAmount = 0, Version = 2,
           UpdatedAt = 102\<rparr>"
proof -
  let ?tx1 = "demo_tx ''tx_1'' ''user1'' 100 ''debit''"
  let ?tx2 = "demo_tx ''tx_2'' ''user2'' 50 ''credit''"
  have 1: "\<not> exited (snd demo_worker)" and 2: "batch (snd demo_worker) = []"
    and 3: "settlementChan (fst demo_worker) = [?tx1] @ ?tx2 # []"
    and 4: "batchSize (fst demo_worker) = int (length ([?tx1] @ [?tx2]))"
    by (simp_all add: demo_worker_def)
  have u: "accounts (snd (batchProcessTransactions (fst demo_worker\<lparr>settlementChan := []\<rparr>)
                  ([?tx1] @ [?tx2]) demo_clock)) ''user2'' =
     Some \<lparr>Account.UserID = ''user2'', Balance = 550, FrozenAmount = 0, Version = 2,
           UpdatedAt = 102\<rparr>"
    by (simp add: demo_worker_def demo_defs)
  from size_triggered_flush [OF 1 2 3 4, of demo_clock]
  have "run (fst demo_worker, snd demo_worker)
          [WorkerStep Received demo_clock, WorkerStep Received demo_clock] =
        (snd (batchProcessTransactions (fst demo_worker\<lparr>settlementChan := []\<rparr>)
                ([?tx1] @ [?tx2]) demo_clock),
         snd demo_worker\<lparr>batch := [], timerResets := Suc (timerResets (snd demo_worker))\<rparr>)"
    by (simp add: numeral_2_eq_2)
  then show ?thesis
    using 1 2 3 4 u by (simp add: demo_worker_def)
qed

lemma exec_log:
  "\<exists>new. transactions (fst (exec s c)) = transactions (fst s) @ new"
proof (cases s)
  case (Pair se w)
  show ?thesis
  proof (cases c)
    case (WorkerStep sc clk)
    then show ?thesis
      using Pair
      by (cases sc)
        (auto simp: processSettlementQueue_step_def processBatch_engine Let_def
          split: list.splits)
  qed (use Pair in \<open>auto simp: CreateAccount_def SubmitTransaction_def
        FreezeAmount_def UnfreezeAmount_def Stop_def Let_def split: option.splits\<close>)
qed

text \<open>
  The transaction log only grows at its end: after any run the log is the log
  before, followed by the entries appended since. No entry is removed or reordered.
\<close>

theorem log_append_only:
  "\<exists>new. transactions (fst (run s calls)) = transactions (fst s) @ new"
proof (induction calls arbitrary: s)
  case Nil
  show ?case by (simp add: run_def)
next
  case (Cons c calls)
  obtain n1 where 1: "transactions (fst (exec s c)) = transactions (fst s) @ n1"
    using exec_log [of s c] by blast
  obtain n2 where 2: "transactions (fst (run (exec s c) calls)) =
                        transactions (fst (exec s c)) @ n2"
    using Cons [of "exec s c"] by blast
  have "transactions (fst (run s (c # calls))) = transactions (fst s) @ (n1 @ n2)"
    using 1 2 by (simp add: run_def)
  then show ?case by blast
qed

text \<open>
  Settling a batch \<open>xs @ ys\<close> is settling \<open>xs\<close> and then \<open>ys\<close> on the ledger that \<open>xs\<close>
  has left, with the clock advanced by the readings \<open>xs\<close> has made; the results are
  those of \<open>xs\<close> followed by those of \<open>ys\<close>.
\<close>

theorem batch_split:
  "batchProcessTransactions se (xs @ ys) clk =
     (case batch_loop clk 0 (accounts se) xs of
        (r1, accs1, k1) \<Rightarrow>
          (case batchProcessTransactions (se\<lparr>accounts := accs1\<rparr>) ys (\<lambda>j. clk (j + k1)) of
             (r2, se2) \<Rightarrow> (r1 @ r2, se2)))"
proof -
  obtain r1 accs1 k1 where 1: "batch_loop clk 0 (accounts se) xs = (r1, accs1, k1)"
    by (cases "batch_loop clk 0 (accounts se) xs") auto
  obtain r2 accs2 k2 where 2: "batch_loop (\<lambda>j. clk (j + k1)) 0 accs1 ys = (r2, accs2, k2)"
    by (cases "batch_loop (\<lambda>j. clk (j + k1)) 0 accs1 ys") auto
  have "batch_loop clk (0 + k1) accs1 ys = (r2, accs2, k2 + k1)"
    using 2 by (simp only: batch_loop_shift prod.case)
  then have "batch_loop clk 0 (accounts se) (xs @ ys) = (r1 @ r2, accs2, k2 + k1)"
    using 1 by (simp add: batch_loop_append)
  then show ?thesis
    using 1 2 by (simp add: batchProcessTransactions_def)
qed

lemma stats_fold_key:
  "foldl (\<lambda>stats tx.
              if Status tx = ''pending'' then incr stats ''pending_transactions''
              else incr stats ''processed_transactions'') m txs =
   (\<lambda>key.
      if key = ''pending_transactions'' \<and> filter (\<lambda>tx. Status tx = ''pending'') txs \<noteq> [] then
        Some ((case m key of None \<Rightarrow> 0 | Some n \<Rightarrow> n)
              + int (length (filter (\<lambda>tx. Status tx = ''pending'') txs)))
      else if key = ''processed_transactions'' \<and>
              filter (\<lambda>tx. Status tx \<noteq> ''pending'') txs \<noteq> [] then
        Some ((case m key of None \<Rightarrow> 0 | Some n \<Rightarrow> n)
              + int (length (filter (\<lambda>tx. Status tx \<noteq> ''pending'') txs)))
      else m key)"
proof (induction txs arbitrary: m)
  case Nil
  show ?case by simp
next
  case (Cons tx txs)
  show ?case
    by (simp add: Cons.IH) (auto simp: incr_def fun_eq_iff split: option.splits)
qed

text \<open>
  \<open>GetTransactionStats\<close> reports the number of accounts, the length of the log,
  the number of log entries whose status is \<open>pending\<close> and the number of those whose
  status is anything else.
\<close>

theorem stats_counts:
  "GetTransactionStats se ''total_accounts'' = Some (int (card (dom (accounts se)))) \<and>
   GetTransactionStats se ''total_transactions'' = Some (int (length (transactions se))) \<and>
   GetTransactionStats se ''pending_transactions'' =
     Some (int (length (filter (\<lambda>tx. Status tx = ''pending'') (transactions se)))) \<and>
   GetTransactionStats se ''processed_transactions'' =
     Some (int (length (filter (\<lambda>tx. Status tx \<noteq> ''pending'') (transactions se))))"
  by (simp add: GetTransactionStats_def stats_fold_key)

text \<open>
  \<open>FreezeAmount\<close> and \<open>UnfreezeAmount\<close> return \<open>AccountNotFound\<close> for a user that has
  no account. For an account, \<open>FreezeAmount\<close> returns \<open>InsufficientBalance\<close> when the
  balance is below the amount and otherwise moves the amount from the balance to the
  frozen amount; \<open>UnfreezeAmount\<close> returns \<open>InsufficientFrozenFunds\<close> when the frozen
  amount is below the amount and otherwise moves the amount back. A success
  increments the version and sets the timestamp; an error leaves the engine as it is.
\<close>

theorem freeze_unfreeze_contract:
  "(accounts se userID = None \<longrightarrow>
      FreezeAmount se userID amount now = (Some AccountNotFound, se) \<and>
      UnfreezeAmount se userID amount now = (Some AccountNotFound, se)) \<and>
   (\<forall>account. accounts se userID = Some account \<longrightarrow>
      FreezeAmount se userID amount now =
        (if Balance account < amount then (Some InsufficientBalance, se)
         else (None,
               se\<lparr>accounts := (accounts se)(userID \<mapsto>
                  account\<lparr>Balance := Balance account - amount,
                          FrozenAmount := FrozenAmount account + amount,
                          Version := Version account + 1, UpdatedAt := now\<rparr>)\<rparr>)) \<and>
      UnfreezeAmount se userID amount now =
        (if FrozenAmount account < amount then (Some InsufficientFrozenFunds, se)
         else (None,
               se\<lparr>accounts := (accounts se)(userID \<mapsto>
                  account\<lparr>Balance := Balance account + amount,
                          FrozenAmount := FrozenAmount account - amount,
                          Version := Version account + 1, UpdatedAt := now\<rparr>)\<rparr>)))"
  by (simp add: FreezeAmount_def UnfreezeAmount_def)

theorem freeze_unfreeze_contract_witness:
  "accounts demo_engine ''user3'' = None \<and>
   FreezeAmount demo_engine ''user3'' 200 3 = (Some AccountNotFound, demo_engine) \<and>
   accounts demo_frozen ''user1'' =
     Some \<lparr>Account.UserID = ''user1'', Balance = 800, FrozenAmount = 200, Version = 2,
           UpdatedAt = 3\<rparr> \<and>
   accounts (snd (UnfreezeAmount demo_frozen ''user1'' 100 4)) ''user1'' =
     Some \<lparr>Account.UserID = ''user1'', Balance = 900, FrozenAmount = 100, Version = 3,
           UpdatedAt = 4\<rparr> \<and>
   FreezeAmount demo_frozen ''user1'' 1000 5 = (Some InsufficientBalance, demo_frozen) \<and>
   UnfreezeAmount demo_frozen ''user1'' 300 5 = (Some InsufficientFrozenFunds, demo_frozen)"
proof -
  have a: "accounts demo_engine ''user3'' = None"
    and b: "accounts demo_engine ''user1'' =
     Some \<lparr>Account.UserID = ''user1'', Balance = 1000, FrozenAmount = 0, Version = 1,
           UpdatedAt = 1\<rparr>"
    by (simp_all add: demo_engine_def CreateAccount_def NewSettlementEngine_def)
  have c: "accounts demo_frozen ''user1'' =
     Some \<lparr>Account.UserID = ''user1'', Balance = 800, FrozenAmount = 200, Version = 2,
           UpdatedAt = 3\<rparr>"
    using freeze_unfreeze_contract [of demo_engine "''user1''" 200 3] b
    by (simp add: demo_frozen_def)
  show ?thesis
    using freeze_unfreeze_contract [of demo_engine "''user3''" 200 3]
      freeze_unfreeze_contract [of demo_frozen "''user1''" 100 4]
      freeze_unfreeze_contract [of demo_frozen "''user1''" 1000 5]
      freeze_unfreeze_contract [of demo_frozen "''user1''" 300 5] a c
    by simp
qed

end
